theory Spec2Isabelle
  imports Complex_Main "HOL-Library.AList" "HOL-Library.Sublist"
begin

unbundle bit_operations_syntax

section \<open>Python values used by WoodGrain.py\<close>

text \<open>
  Python floats are modelled as exact reals: rounding, infinities and NaN are outside this
  model. Strings are byte strings (ASCII); \<open>None\<close> is \<open>option\<close>. Every exception the
  script can raise is a value of \<open>py_error\<close>.
\<close>

datatype py_error = ZeroDivisionError | ValueError | UnboundLocalError

text \<open>The line separator \<open>eol = "\n"\<close>.\<close>

definition eol :: string where
  "eol = [CHR 0x0A]"

subsection \<open>String builtins\<close>

text \<open>\<open>sub in s\<close>.\<close>

fun contains :: "string \<Rightarrow> string \<Rightarrow> bool" where
  "contains [] sub = (sub = [])"
| "contains (c # cs) sub = (if prefix sub (c # cs) then True else contains cs sub)"

text \<open>\<open>s.find(sub)\<close>: the index of the first occurrence, or -1.\<close>

fun find_from :: "nat \<Rightarrow> string \<Rightarrow> string \<Rightarrow> int" where
  "find_from i [] sub = (if sub = [] then int i else - 1)"
| "find_from i (c # cs) sub = (if prefix sub (c # cs) then int i else find_from (Suc i) cs sub)"

definition find_s :: "string \<Rightarrow> string \<Rightarrow> int" where
  "find_s s sub = find_from 0 s sub"

text \<open>\<open>s.lower()\<close> on ASCII.\<close>

definition lower_c :: "char \<Rightarrow> char" where
  "lower_c c =
     (case map_of (zip ''ABCDEFGHIJKLMNOPQRSTUVWXYZ'' ''abcdefghijklmnopqrstuvwxyz'') c of
        Some d \<Rightarrow> d
      | None \<Rightarrow> c)"

definition lower_s :: "string \<Rightarrow> string" where
  "lower_s s = map lower_c s"

text \<open>\<open>s.split("\n")\<close>: always at least one piece.\<close>

fun split_s :: "string \<Rightarrow> string list" where
  "split_s [] = [[]]"
| "split_s (c # cs) =
     (if c = CHR 0x0A then [] # split_s cs
      else (case split_s cs of l # ls \<Rightarrow> (c # l) # ls | [] \<Rightarrow> [[c]]))"

text \<open>
  \<open>s.replace(old, new)\<close>: every non-overlapping occurrence, from the left. The counter is
  the number of characters of a matched occurrence still to be dropped. An empty \<open>old\<close>
  matches before every character and at the end.
\<close>

fun replace_from :: "nat \<Rightarrow> string \<Rightarrow> string \<Rightarrow> string \<Rightarrow> string" where
  "replace_from k old new [] = []"
| "replace_from (Suc k) old new (c # cs) = replace_from k old new cs"
| "replace_from 0 old new (c # cs) =
     (if prefix old (c # cs) then new @ replace_from (length old - 1) old new cs
      else c # replace_from 0 old new cs)"

definition replace_s :: "string \<Rightarrow> string \<Rightarrow> string \<Rightarrow> string" where
  "replace_s s old new =
     (if old = [] then new @ concat (map (\<lambda>c. c # new) s) else replace_from 0 old new s)"

subsection \<open>Numbers and their text\<close>

text \<open>\<open>int(x)\<close> of a float truncates toward zero.\<close>

definition py_int :: "real \<Rightarrow> int" where
  "py_int x = (if 0 \<le> x then \<lfloor>x\<rfloor> else \<lceil>x\<rceil>)"

definition is_digit :: "char \<Rightarrow> bool" where
  "is_digit c = (c \<in> set ''0123456789'')"

definition digit_val :: "char \<Rightarrow> nat" where
  "digit_val c = of_char c - 48"

definition digits_val :: "string \<Rightarrow> nat" where
  "digits_val ds = foldl (\<lambda>acc c. 10 * acc + digit_val c) 0 ds"

text \<open>
  \<open>re.search('^[-+]?[0-9]+\.?[0-9]*', s)\<close>: the matched text \<open>m.group(0)\<close>, or None. The
  match is greedy and anchored at the start; without a digit after the optional sign there
  is no match.
\<close>

definition re_number :: "string \<Rightarrow> string option" where
  "re_number s =
     (let sgn = (case s of c # cs \<Rightarrow> if c = CHR ''-'' \<or> c = CHR ''+'' then [c] else [] | [] \<Rightarrow> []);
          r = drop (length sgn) s;
          ip = takeWhile is_digit r;
          r1 = dropWhile is_digit r
      in if ip = [] then None
         else (case r1 of
                 c # cs \<Rightarrow> if c = CHR ''.'' then Some (sgn @ ip @ [c] @ takeWhile is_digit cs)
                           else Some (sgn @ ip)
               | [] \<Rightarrow> Some (sgn @ ip)))"

text \<open>\<open>float(text)\<close> on a text of the shape matched above; it never raises there.\<close>

definition float_s :: "string \<Rightarrow> real" where
  "float_s t =
     (let neg = (case t of c # cs \<Rightarrow> c = CHR ''-'' | [] \<Rightarrow> False);
          body = (case t of c # cs \<Rightarrow> if c = CHR ''-'' \<or> c = CHR ''+'' then cs else t | [] \<Rightarrow> t);
          ip = takeWhile is_digit body;
          fp = takeWhile is_digit (drop 1 (dropWhile is_digit body));
          v = real (digits_val ip) + real (digits_val fp) / 10 ^ length fp
      in if neg then - v else v)"

text \<open>Decimal text of integers: \<open>str(n)\<close>, and \<open>"%i" % x\<close>, which truncates a float first.\<close>

definition digit_char :: "int \<Rightarrow> char" where
  "digit_char d = ''0123456789'' ! nat d"

function str_nat :: "int \<Rightarrow> string" where
  "str_nat n = (if n < 10 then [digit_char n] else str_nat (n div 10) @ [digit_char (n mod 10)])"
  by pat_completeness auto
termination
  by (relation "measure nat") auto

declare str_nat.simps [simp del]

definition str_int :: "int \<Rightarrow> string" where
  "str_int i = (if i < 0 then ''-'' @ str_nat (- i) else str_nat i)"

definition fmt_i :: "real \<Rightarrow> string" where
  "fmt_i x = str_int (py_int x)"

text \<open>\<open>"%3i" % x\<close>: the same, padded on the left with spaces to three characters.\<close>

definition fmt_3i :: "real \<Rightarrow> string" where
  "fmt_3i x = replicate (3 - length (fmt_i x)) CHR '' '' @ fmt_i x"

text \<open>
  \<open>"%03f" % x\<close>: six decimals, ties to even (on the exact value of this model); the
  minimum width 3 never pads, the text having eight characters or more.
\<close>

definition round_half_even :: "real \<Rightarrow> int" where
  "round_half_even r =
     (let f = \<lfloor>r\<rfloor>
      in if r - real_of_int f < 1 / 2 then f
         else if r - real_of_int f > 1 / 2 then f + 1
         else if even f then f else f + 1)"

definition fmt_03f :: "real \<Rightarrow> string" where
  "fmt_03f x =
     (let n = round_half_even (\<bar>x\<bar> * 1000000);
          fr = str_nat (n mod 1000000)
      in (if x < 0 then ''-'' else []) @ str_nat (n div 1000000) @ ''.'' @
         replicate (6 - length fr) CHR ''0'' @ fr)"

text \<open>
  \<open>str(x)\<close> of a float: the shortest decimal text that reads back as the same float. For
  a float that stands for a short decimal of ordinary magnitude this is that decimal,
  with \<open>.0\<close> after a whole number; the model prints it, on at most 17 decimals. Exponent
  notation (below 1e-4, from 1e16) is outside the model.
\<close>

fun frac_digits :: "nat \<Rightarrow> real \<Rightarrow> string" where
  "frac_digits 0 r = []"
| "frac_digits (Suc k) r =
     (if r = 0 then []
      else (let d = \<lfloor>r * 10\<rfloor> in digit_char d # frac_digits k (r * 10 - real_of_int d)))"

definition str_float :: "real \<Rightarrow> string" where
  "str_float x =
     (let a = \<bar>x\<bar>; ip = \<lfloor>a\<rfloor>; fr = a - real_of_int ip
      in (if x < 0 then ''-'' else []) @ str_nat ip @ ''.'' @
         (if fr = 0 then ''0'' else frac_digits 17 fr))"

section \<open>Field extraction\<close>

text \<open>
  \<open>getValue(line, key, default)\<close>. The result \<open>None\<close> stands for "return \<open>default\<close>": the
  three places where the source returns its default argument.
\<close>

definition getValue :: "string \<Rightarrow> string \<Rightarrow> real option" where
  "getValue line key =
     (if \<not> contains line key \<or> (contains line '';'' \<and> find_s line key > find_s line '';'')
      then None
      else (let sub_part = drop (nat (find_s line key + int (length key))) line
            in (case re_number sub_part of None \<Rightarrow> None | Some m \<Rightarrow> Some (float_s m))))"

definition getZ :: "string \<Rightarrow> real \<Rightarrow> real" where
  "getZ line dflt =
     (if getValue line ''G'' = Some 0 \<or> getValue line ''G'' = Some 1
      then (case getValue line ''Z'' of None \<Rightarrow> dflt | Some z \<Rightarrow> z)
      else dflt)"

section \<open>Settings and local variables of \<open>execute\<close>\<close>

text \<open>
  The values read with \<open>getSettingValueByKey\<close>, under their keys. \<open>g_randomSeed\<close> only
  seeds \<open>random.shuffle\<close>; the shuffled \<open>range(256)\<close> is a parameter of the model, called
  \<open>permutation\<close>.
\<close>

record settings =
  a_minTemp :: real
  b_maxTemp :: real
  c_firstTemp :: real
  d_grainSize :: real
  e_maxUpward :: real
  f_zOffset :: real
  h_spikinessPower :: real

text \<open>
  The local variables of \<open>execute\<close> that live across loop iterations. \<open>noises\<close> is the
  dict, in insertion order; the flags \<open>header\<close> and \<open>savelayer\<close> (1 or 0 in the source)
  are booleans.
\<close>

record locals =
  noises :: "(real \<times> real) list"
  formerZ :: real
  thisZ :: real
  absolute :: bool
  lastPatchZ :: real
  warmingTempCommands :: string
  graphStr :: string
  header :: bool
  savelayer :: bool
  postponedTempDelta :: real
  postponedTempLast :: "real option"
  skiplines :: nat
  layer :: string

text \<open>A loop whose body may raise: the first exception ends it.\<close>

fun for_each :: "('s \<Rightarrow> 'a \<Rightarrow> 'e + 's) \<Rightarrow> 's \<Rightarrow> 'a list \<Rightarrow> 'e + 's" where
  "for_each body s [] = Inr s"
| "for_each body s (x # xs) =
     (case body s x of Inl e \<Rightarrow> Inl e | Inr s' \<Rightarrow> for_each body s' xs)"

section \<open>Perlin noise\<close>

definition fade :: "real \<Rightarrow> real" where
  "fade t = t * t * t * (t * (t * 6 - 15) + 10)"

definition lerp :: "real \<Rightarrow> real \<Rightarrow> real \<Rightarrow> real" where
  "lerp t a b = a + t * (b - a)"

definition grad :: "int \<Rightarrow> real \<Rightarrow> real \<Rightarrow> real \<Rightarrow> real" where
  "grad hash x y z =
     (let h = hash AND 15;
          u = (if h < 8 then x else y);
          v = (if h < 4 then y else if h = 12 \<or> h = 14 then x else z);
          first = (if h AND 1 = 0 then u else - u);
          second = (if h AND 2 = 0 then v else - v)
      in first + second)"

text \<open>\<open>Perlin.__init__\<close> with \<open>tiledim = 256\<close>: the shuffled permutation, stored twice.\<close>

definition tiledim :: int where
  "tiledim = 256"

definition Perlin :: "int list \<Rightarrow> int list" where
  "Perlin permutation = permutation @ permutation"

definition is_shuffle :: "int list \<Rightarrow> bool" where
  "is_shuffle permutation = (length permutation = 256 \<and> set permutation = {0..<256})"

text \<open>
  \<open>perm[i]\<close>. Every index the source computes lies in \<open>0..511\<close> when the permutation is a
  shuffle of \<open>range(256)\<close>, so the read never raises.
\<close>

definition perm_at :: "int list \<Rightarrow> int \<Rightarrow> int" where
  "perm_at perm i = perm ! nat i"

definition noise :: "int list \<Rightarrow> real \<Rightarrow> real \<Rightarrow> real \<Rightarrow> real" where
  "noise perm x0 y0 z0 =
     (let X = py_int x0 AND (tiledim - 1);
          Y = py_int y0 AND (tiledim - 1);
          Z = py_int z0 AND (tiledim - 1);
          x = x0 - real_of_int (py_int x0);
          y = y0 - real_of_int (py_int y0);
          z = z0 - real_of_int (py_int z0);
          u = fade x;
          v = fade y;
          w = fade z;
          A = perm_at perm X + Y; AA = perm_at perm A + Z; AB = perm_at perm (A + 1) + Z;
          B = perm_at perm (X + 1) + Y; BA = perm_at perm B + Z; BB = perm_at perm (B + 1) + Z
      in lerp w
           (lerp v
              (lerp u (grad (perm_at perm AA) x y z) (grad (perm_at perm BA) (x - 1) y z))
              (lerp u (grad (perm_at perm AB) x (y - 1) z) (grad (perm_at perm BB) (x - 1) (y - 1) z)))
           (lerp v
              (lerp u (grad (perm_at perm (AA + 1)) x y (z - 1)) (grad (perm_at perm (BA + 1)) (x - 1) y (z - 1)))
              (lerp u (grad (perm_at perm (AB + 1)) x (y - 1) (z - 1))
                      (grad (perm_at perm (BB + 1)) (x - 1) (y - 1) (z - 1)))))"

text \<open>
  The loop of \<open>fractal\<close> over \<open>range(octaves)\<close>; the loop state is
  \<open>(value, amplitude, totalAmplitude, frequency)\<close>.
\<close>

fun fractal_loop ::
  "int list \<Rightarrow> nat \<Rightarrow> real \<Rightarrow> real \<Rightarrow> real \<Rightarrow> real \<Rightarrow> real \<times> real \<times> real \<times> real
     \<Rightarrow> real \<times> real \<times> real \<times> real" where
  "fractal_loop perm 0 persistence x y z s = s"
| "fractal_loop perm (Suc k) persistence x y z (val, amplitude, totalAmplitude, frequency) =
     (let n = noise perm (x * frequency) (y * frequency) (z * frequency)
      in fractal_loop perm k persistence x y z
           (val + amplitude * n, amplitude * persistence, totalAmplitude + amplitude, frequency * 2))"

definition fractal ::
  "int list \<Rightarrow> nat \<Rightarrow> real \<Rightarrow> real \<Rightarrow> real \<Rightarrow> real \<Rightarrow> real \<Rightarrow> py_error + real" where
  "fractal perm octaves persistence x y z frequency =
     (case fractal_loop perm octaves persistence x y z (0, 1, 0, frequency) of
        (val, amplitude, totalAmplitude, freq) \<Rightarrow>
          if totalAmplitude = 0 then Inl ZeroDivisionError else Inr (val / totalAmplitude))"

section \<open>From noise to wood\<close>

text \<open>
  \<open>math.pow(x, y)\<close>: a zero base with a negative exponent, and a negative base with a
  fractional exponent, raise ValueError; \<open>pow(0, 0) = 1\<close>.
\<close>

definition math_pow :: "real \<Rightarrow> real \<Rightarrow> py_error + real" where
  "math_pow x y =
     (if x = 0 then (if y = 0 then Inr 1 else if y < 0 then Inl ValueError else Inr 0)
      else if 0 < x then Inr (x powr y)
      else if y \<in> \<int> then Inr (x powi \<lfloor>y\<rfloor>)
      else Inl ValueError)"

definition perlinToNormalizedWood ::
  "real \<Rightarrow> real \<Rightarrow> real \<Rightarrow> real \<Rightarrow> int list \<Rightarrow> py_error + real" where
  "perlinToNormalizedWood z zOffset grainSize spikinessPower perlin =
     (let banding = 3; octaves = 2; persistence = 0.7
      in if grainSize * 2 = 0 then Inl ZeroDivisionError
         else (case fractal perlin octaves persistence 0 0 ((z + zOffset) / (grainSize * 2)) 1 of
                 Inl e \<Rightarrow> Inl e
               | Inr f \<Rightarrow>
                   (let n = banding * f;
                        n = n - real_of_int \<lfloor>n\<rfloor>
                    in math_pow n spikinessPower)))"

definition noiseToTemp :: "real \<Rightarrow> real \<Rightarrow> real \<Rightarrow> real" where
  "noiseToTemp n maxTemp minTemp = minTemp + n * (maxTemp - minTemp)"

section \<open>First pass: sampling the heights\<close>

definition minimumChangeZ :: real where
  "minimumChangeZ = 0.1"

text \<open>The variables as set before the first loop; the sample for height 0 may raise.\<close>

definition init_locals :: "settings \<Rightarrow> int list \<Rightarrow> py_error + locals" where
  "init_locals cfg perlin =
     (case perlinToNormalizedWood 0 (f_zOffset cfg) (d_grainSize cfg) (h_spikinessPower cfg) perlin of
        Inl e \<Rightarrow> Inl e
      | Inr v \<Rightarrow>
          Inr \<lparr>noises = [(0, v)], formerZ = - 1, thisZ = - 1, absolute = False, lastPatchZ = - 1,
               warmingTempCommands = [], graphStr = [], header = False, savelayer = False,
               postponedTempDelta = 0, postponedTempLast = None, skiplines = 0, layer = []\<rparr>)"

text \<open>The body of the inner loop of the first pass, one line.\<close>

definition scan_line :: "settings \<Rightarrow> int list \<Rightarrow> locals \<Rightarrow> string \<Rightarrow> py_error + locals" where
  "scan_line cfg perlin s line =
     (let s = (if contains line ''G90'' then s\<lparr>absolute := True\<rparr> else s);
          s = (if contains line ''G91'' then s\<lparr>absolute := False\<rparr> else s)
      in if absolute s then
           (let s = s\<lparr>thisZ := getZ line (formerZ s)\<rparr>
            in if thisZ s > 2 + formerZ s then Inr (s\<lparr>formerZ := thisZ s\<rparr>)
               else if \<bar>thisZ s - formerZ s\<bar> > minimumChangeZ then
                 (case perlinToNormalizedWood (thisZ s) (f_zOffset cfg) (d_grainSize cfg)
                         (h_spikinessPower cfg) perlin of
                    Inl e \<Rightarrow> Inl e
                  | Inr v \<Rightarrow> Inr (s\<lparr>formerZ := thisZ s, noises := AList.update (thisZ s) v (noises s)\<rparr>))
               else Inr s)
         else Inr s)"

definition scan_layer :: "settings \<Rightarrow> int list \<Rightarrow> locals \<Rightarrow> string \<Rightarrow> py_error + locals" where
  "scan_layer cfg perlin s layer_text = for_each (scan_line cfg perlin) s (split_s layer_text)"

definition first_pass :: "settings \<Rightarrow> int list \<Rightarrow> string list \<Rightarrow> py_error + locals" where
  "first_pass cfg perlin data =
     (case init_locals cfg perlin of
        Inl e \<Rightarrow> Inl e
      | Inr s \<Rightarrow>
          (case for_each (scan_layer cfg perlin) s data of
             Inl e \<Rightarrow> Inl e
           | Inr s \<Rightarrow> Inr (s\<lparr>lastPatchZ := thisZ s\<rparr>)))"

section \<open>Normalization\<close>

text \<open>
  \<open>noises[max(noises, key = noises.get)]\<close> is the largest value of the dict, and likewise
  the smallest; \<open>max\<close> of an empty dict raises ValueError. The loop then divides every value
  by \<open>noisesMax - noisesMin\<close>, which raises at the first entry when the two are equal.
\<close>

definition noisesMax :: "(real \<times> real) list \<Rightarrow> real" where
  "noisesMax ns = Max (set (map snd ns))"

definition noisesMin :: "(real \<times> real) list \<Rightarrow> real" where
  "noisesMin ns = Min (set (map snd ns))"

definition normalize :: "(real \<times> real) list \<Rightarrow> py_error + (real \<times> real) list" where
  "normalize ns =
     (if ns = [] then Inl ValueError
      else if noisesMax ns - noisesMin ns = 0 then Inl ZeroDivisionError
      else Inr (map (\<lambda>(z, v). (z, (v - noisesMin ns) / (noisesMax ns - noisesMin ns))) ns))"

section \<open>Second pass: rewriting the stream\<close>

text \<open>The startup block and the head of the graph, as built before the second loop.\<close>

definition warming :: "settings \<Rightarrow> string" where
  "warming cfg =
     ''M230 S0'' @ eol @
     (if c_firstTemp cfg = 0
      then ''M104 S'' @ fmt_i (noiseToTemp 0 (b_maxTemp cfg) (a_minTemp cfg)) @ eol
      else ''M104 S'' @ fmt_i (c_firstTemp cfg) @ eol) @
     ''M230 S1'' @ eol @
     ''M116'' @ eol"

definition graph_head :: "settings \<Rightarrow> string" where
  "graph_head cfg =
     '';WoodGraph: Wood temperature graph (from '' @ str_float (a_minTemp cfg) @ ''C to '' @
     str_float (b_maxTemp cfg) @ ''C, grain size '' @ str_float (d_grainSize cfg) @
     ''mm, z-offset '' @ str_float (f_zOffset cfg) @ '')'' @
     (if e_maxUpward cfg \<noteq> 0
      then '', temperature increases capped at '' @ str_float (e_maxUpward cfg) else []) @
     '':'' @ eol"

definition start_rewrite :: "settings \<Rightarrow> locals \<Rightarrow> locals" where
  "start_rewrite cfg s =
     s\<lparr>warmingTempCommands := warming cfg, graphStr := graph_head cfg,
       thisZ := - 1, formerZ := - 1, header := True, savelayer := False,
       postponedTempDelta := 0, postponedTempLast := None, skiplines := 0\<rparr>"

text \<open>
  The temperature of a transition on the scheduler path (the \<open>else\<close> branch): the mapped
  noise, the carried delta, the cap on the increase and the ceiling. The result is the
  temperature and the updated variables.
\<close>

definition schedule :: "settings \<Rightarrow> locals \<Rightarrow> real \<Rightarrow> real \<times> locals" where
  "schedule cfg s n =
     (let temp = noiseToTemp n (b_maxTemp cfg) (a_minTemp cfg);
          temp = temp + postponedTempDelta s;
          s = s\<lparr>postponedTempDelta := 0\<rparr>;
          (temp, s) =
            (case postponedTempLast s of
               None \<Rightarrow> (temp, s)
             | Some l \<Rightarrow>
                 if e_maxUpward cfg > 0 \<and> temp > l + e_maxUpward cfg
                 then (l + e_maxUpward cfg, s\<lparr>postponedTempDelta := temp - (l + e_maxUpward cfg)\<rparr>)
                 else (temp, s));
          (temp, s) =
            (if temp > b_maxTemp cfg then (b_maxTemp cfg, s\<lparr>postponedTempDelta := 0\<rparr>)
             else (temp, s))
      in (temp, s\<lparr>postponedTempLast := Some temp\<rparr>))"

text \<open>The text put after the triggering line.\<close>

definition injected :: "real \<Rightarrow> string" where
  "injected temp = ''M104 S'' @ fmt_i temp @ '' ; Wood Grain'' @ eol"

text \<open>One row of the graph; the division raises when the two temperatures are equal.\<close>

definition graph_row :: "settings \<Rightarrow> real \<Rightarrow> real \<Rightarrow> py_error + string" where
  "graph_row cfg z temp =
     (if b_maxTemp cfg - a_minTemp cfg = 0 then Inl ZeroDivisionError
      else (let t = py_int (19 * (temp - a_minTemp cfg) / (b_maxTemp cfg - a_minTemp cfg));
                myStr = '';WoodGraph: Z '' @ fmt_03f z @ '' '';
                myStr = myStr @ ''@'' @ fmt_3i temp @ ''C | '';
                myStr = myStr @ replicate (nat t) CHR ''#'';
                myStr = myStr @ replicate (nat (20 - (t + 1))) CHR ''.''
            in Inr (myStr @ eol)))"

text \<open>
  The body of \<open>if thisZ != formerZ and thisZ in noises\<close>; \<open>n\<close> is \<open>noises[thisZ]\<close>.
\<close>

definition transition :: "settings \<Rightarrow> locals \<Rightarrow> string \<Rightarrow> real \<Rightarrow> py_error + locals" where
  "transition cfg s line n =
     (let (temp, s) =
            (if c_firstTemp cfg \<noteq> 0 \<and> thisZ s \<le> 0.5 then (c_firstTemp cfg, s)
             else (let (temp, s) = schedule cfg s n
                   in (temp, s\<lparr>layer := replace_s (layer s) line (line @ eol @ injected temp),
                                savelayer := True\<rparr>)));
          s = s\<lparr>formerZ := thisZ s\<rparr>
      in (case graph_row cfg (thisZ s) temp of
            Inl e \<Rightarrow> Inl e
          | Inr row \<Rightarrow> Inr (s\<lparr>graphStr := graphStr s @ row\<rparr>)))"

text \<open>The body of the inner loop of the second pass, one line.\<close>

definition rewrite_line :: "settings \<Rightarrow> locals \<Rightarrow> string \<Rightarrow> py_error + locals" where
  "rewrite_line cfg s line =
     (if contains (lower_s line) ''; set extruder '' then
        Inr (s\<lparr>layer := replace_s (layer s) line (line @ eol @ warmingTempCommands s),
               warmingTempCommands := [], savelayer := True\<rparr>)
      else if skiplines s > 0 then Inr (s\<lparr>skiplines := skiplines s - 1\<rparr>)
      else if contains (lower_s line) '';woodified'' then Inr (s\<lparr>skiplines := 4\<rparr>)
      else if \<not> contains (lower_s line) '';woodgraph'' then
        (if thisZ s = lastPatchZ s then Inr s
         else if \<not> contains (lower_s line) ''m104'' then
           (let s = s\<lparr>thisZ := getZ line (formerZ s)\<rparr>
            in (case map_of (noises s) (thisZ s) of
                  Some n \<Rightarrow> if thisZ s \<noteq> formerZ s then transition cfg s line n else Inr s
                | None \<Rightarrow> Inr s))
         else Inr s)
      else Inr s)"

text \<open>
  The body of the outer loop: one layer. \<open>data\<close> is the caller's list, changed in place;
  when a line raises, the list is left as it is at that moment.
\<close>

definition rewrite_layer ::
  "settings \<Rightarrow> locals \<times> string list \<Rightarrow> nat \<times> string \<Rightarrow> py_error \<times> string list + locals \<times> string list" where
  "rewrite_layer cfg sd il =
     (case (sd, il) of
        ((s, data), (index, layer_text)) \<Rightarrow>
          (let s = s\<lparr>layer := layer_text\<rparr>;
               (s, data) =
                 (if header s
                  then (s\<lparr>layer := warmingTempCommands s @ layer s, header := False\<rparr>,
                        data[index := warmingTempCommands s @ layer s])
                  else (s, data))
           in (case for_each (rewrite_line cfg) s (split_s (layer s)) of
                 Inl e \<Rightarrow> Inl (e, data)
               | Inr s \<Rightarrow>
                   Inr (if savelayer s then (s\<lparr>savelayer := False\<rparr>, data[index := layer s])
                        else (s, data)))))"

text \<open>
  After the loop the graph goes to the end of the last layer; with no layer at all the
  variable \<open>layer\<close> was never bound.
\<close>

definition second_pass :: "settings \<Rightarrow> locals \<Rightarrow> string list \<Rightarrow> py_error option \<times> string list" where
  "second_pass cfg s data =
     (case for_each (rewrite_layer cfg) (s, data) (List.enumerate 0 data) of
        Inl (e, d) \<Rightarrow> (Some e, d)
      | Inr (s, d) \<Rightarrow>
          if d = [] then (Some UnboundLocalError, d)
          else (None, d[length d - 1 := layer s @ graphStr s @ eol]))"

section \<open>The transform\<close>

text \<open>
  \<open>execute(data)\<close>. The result is the exception raised, if any, and the contents of the
  list \<open>data\<close> when the call ends: the list the caller passed is the list that is changed
  and returned.
\<close>

definition execute :: "settings \<Rightarrow> int list \<Rightarrow> string list \<Rightarrow> py_error option \<times> string list" where
  "execute cfg permutation data =
     (case first_pass cfg (Perlin permutation) data of
        Inl e \<Rightarrow> (Some e, data)
      | Inr s \<Rightarrow>
          (case normalize (noises s) of
             Inl e \<Rightarrow> (Some e, data)
           | Inr ns \<Rightarrow> second_pass cfg (start_rewrite cfg (s\<lparr>noises := ns\<rparr>)) data))"

section \<open>Predicates used in the statements\<close>

text \<open>
  The state of the scheduler is sound: the carried delta is not negative and the last
  scheduled temperature, when there is one, lies in the configured range.
\<close>

definition sched_ok :: "settings \<Rightarrow> locals \<Rightarrow> bool" where
  "sched_ok cfg s =
     (0 \<le> postponedTempDelta s \<and>
      (case postponedTempLast s of None \<Rightarrow> True | Some l \<Rightarrow> a_minTemp cfg \<le> l \<and> l \<le> b_maxTemp cfg))"

text \<open>Every value of the dict lies in \<open>[0, 1]\<close>.\<close>

definition unit_noises :: "(real \<times> real) list \<Rightarrow> bool" where
  "unit_noises ns = list_all (\<lambda>(z, v). 0 \<le> v \<and> v \<le> 1) ns"

section \<open>Sample inputs\<close>

text \<open>
  One possible outcome of the shuffle (the reversed range), the settings of the spec's
  first scenario, and two one-layer streams.
\<close>

definition reversed_permutation :: "int list" where
  "reversed_permutation = map (\<lambda>i. 255 - int i) [0..<256]"

definition sample_settings :: settings where
  "sample_settings =
     \<lparr>a_minTemp = 180, b_maxTemp = 230, c_firstTemp = 0, d_grainSize = 3, e_maxUpward = 0,
      f_zOffset = 0, h_spikinessPower = 1\<rparr>"

definition short_stream :: "string list" where
  "short_stream = [''G90\<newline>G1 Z0.3\<newline>G1 X1'']"

definition long_stream :: "string list" where
  "long_stream = [''G90\<newline>G1 Z0.3\<newline>G1 X1\<newline>G1 Z0.6\<newline>G1 X2'']"

text \<open>The stream that \<open>execute\<close> returns for \<open>short_stream\<close> under \<open>sample_settings\<close>.\<close>

definition short_stream_once :: "string list" where
  "short_stream_once =
     [''M230 S0\<newline>M104 S180\<newline>M230 S1\<newline>M116\<newline>G90\<newline>G1 Z0.3\<newline>M104 S230 ; Wood Grain\<newline>\<newline>G1 X1;WoodGraph: Wood temperature graph (from 180.0C to 230.0C, grain size 3.0mm, z-offset 0.0):\<newline>;WoodGraph: Z 0.300000 @230C | ###################\<newline>\<newline>'']"

text \<open>The stream that \<open>execute\<close> returns for \<open>short_stream_once\<close>, its own output.\<close>

definition short_stream_twice :: "string list" where
  "short_stream_twice =
     [''M230 S0\<newline>M104 S180\<newline>M230 S1\<newline>M116\<newline>M230 S0\<newline>M104 S180\<newline>M230 S1\<newline>M116\<newline>G90\<newline>G1 Z0.3\<newline>M104 S230 ; Wood Grain\<newline>\<newline>M104 S230 ; Wood Grain\<newline>\<newline>G1 X1;WoodGraph: Wood temperature graph (from 180.0C to 230.0C, grain size 3.0mm, z-offset 0.0):\<newline>;WoodGraph: Z 0.300000 @230C | ###################\<newline>\<newline>;WoodGraph: Wood temperature graph (from 180.0C to 230.0C, grain size 3.0mm, z-offset 0.0):\<newline>;WoodGraph: Z 0.300000 @230C | ###################\<newline>\<newline>'']"

text \<open>The lines of a stream that carry the tag of an injected command.\<close>

definition tagged_lines :: "string list \<Rightarrow> string list" where
  "tagged_lines data = filter (\<lambda>l. contains l ''; Wood Grain'') (concat (map split_s data))"

section \<open>Normalization\<close>

lemma noises_between:
  assumes "(z, v) \<in> set ns"
  shows "noisesMin ns \<le> v \<and> v \<le> noisesMax ns"
proof -
  have "v \<in> set (map snd ns)" using assms by force
  then show ?thesis by (simp add: noisesMin_def noisesMax_def)
qed

lemma noisesMax_attained: "ns \<noteq> [] \<Longrightarrow> \<exists>z. (z, noisesMax ns) \<in> set ns"
proof -
  assume "ns \<noteq> []"
  then have "Max (set (map snd ns)) \<in> set (map snd ns)" by (intro Max_in) auto
  then show ?thesis by (auto simp: noisesMax_def)
qed

lemma noisesMin_attained: "ns \<noteq> [] \<Longrightarrow> \<exists>z. (z, noisesMin ns) \<in> set ns"
proof -
  assume "ns \<noteq> []"
  then have "Min (set (map snd ns)) \<in> set (map snd ns)" by (intro Min_in) auto
  then show ?thesis by (auto simp: noisesMin_def)
qed

lemma normalize_Inr:
  assumes "ns \<noteq> []" and "noisesMin ns < noisesMax ns"
  shows "normalize ns =
           Inr (map (\<lambda>(z, v). (z, (v - noisesMin ns) / (noisesMax ns - noisesMin ns))) ns)"
  using assms by (simp add: normalize_def)

lemma normalize_unit:
  assumes "normalize ns = Inr nm"
  shows "unit_noises nm"
proof -
  have ne: "ns \<noteq> []" and d: "noisesMax ns - noisesMin ns \<noteq> 0"
    using assms by (auto simp: normalize_def split: if_splits)
  have nm: "nm = map (\<lambda>(z, v). (z, (v - noisesMin ns) / (noisesMax ns - noisesMin ns))) ns"
    using assms ne d by (simp add: normalize_def)
  obtain z where "(z, noisesMax ns) \<in> set ns" using noisesMax_attained[OF ne] by blast
  then have "noisesMin ns \<le> noisesMax ns" using noises_between by blast
  with d have lt: "0 < noisesMax ns - noisesMin ns" by simp
  have "\<And>z v. (z, v) \<in> set ns \<Longrightarrow>
          0 \<le> (v - noisesMin ns) / (noisesMax ns - noisesMin ns) \<and>
          (v - noisesMin ns) / (noisesMax ns - noisesMin ns) \<le> 1"
    using noises_between lt by (simp add: divide_le_eq)
  then show ?thesis
    unfolding unit_noises_def nm list_all_iff by auto
qed

text \<open>
  C8. When the largest value of NoiseMap is strictly above the smallest, normalization
  succeeds, keeps the keys (in their order), puts every value in \<open>[0, 1]\<close>, and sends
  some height to exactly 0 and some height to exactly 1.
\<close>

theorem normalization_bounds:
  assumes "ns \<noteq> []" and "noisesMin ns < noisesMax ns"
  shows "\<exists>nm. normalize ns = Inr nm \<and> map fst nm = map fst ns \<and>
           (\<forall>(z, v) \<in> set nm. 0 \<le> v \<and> v \<le> 1) \<and>
           (\<exists>z. (z, 0) \<in> set nm) \<and> (\<exists>z. (z, 1) \<in> set nm)"
proof -
  let ?f = "\<lambda>(z, v). (z, (v - noisesMin ns) / (noisesMax ns - noisesMin ns))"
  have eq: "normalize ns = Inr (map ?f ns)" by (rule normalize_Inr[OF assms])
  have keys: "map fst (map ?f ns) = map fst ns" by (induction ns) auto
  have "unit_noises (map ?f ns)" by (rule normalize_unit[OF eq])
  then have unit: "\<forall>(z, v) \<in> set (map ?f ns). 0 \<le> v \<and> v \<le> 1"
    by (simp add: unit_noises_def list_all_iff)
  obtain z0 where z0: "(z0, noisesMin ns) \<in> set ns" using noisesMin_attained[OF assms(1)] by blast
  obtain z1 where z1: "(z1, noisesMax ns) \<in> set ns" using noisesMax_attained[OF assms(1)] by blast
  have "?f (z0, noisesMin ns) \<in> set (map ?f ns)" using z0 by (simp only: set_map) (rule imageI)
  then have lo: "(z0, 0) \<in> set (map ?f ns)" by simp
  have "?f (z1, noisesMax ns) \<in> set (map ?f ns)" using z1 by (simp only: set_map) (rule imageI)
  then have hi: "(z1, 1) \<in> set (map ?f ns)" using assms(2) by simp
  show ?thesis using eq keys unit lo hi by blast
qed

theorem normalization_bounds_witness:
  "[(0, 0), (3 / 10, 1 / 2)] \<noteq> [] \<and>
   noisesMin [(0, 0), (3 / 10, 1 / 2)] < noisesMax [(0, 0), (3 / 10, 1 / 2)] \<and>
   (\<exists>nm. normalize [(0, 0), (3 / 10, 1 / 2)] = Inr nm \<and>
      map fst nm = map fst [(0 :: real, 0 :: real), (3 / 10, 1 / 2)] \<and>
      (\<forall>(z, v) \<in> set nm. 0 \<le> v \<and> v \<le> 1) \<and>
      (\<exists>z. (z, 0) \<in> set nm) \<and> (\<exists>z. (z, 1) \<in> set nm))"
proof -
  have h1: "[(0 :: real, 0 :: real), (3 / 10, 1 / 2)] \<noteq> []" by simp
  have h2: "noisesMin [(0, 0), (3 / 10, 1 / 2)] < noisesMax [(0, 0), (3 / 10, 1 / 2)]"
    by (simp add: noisesMin_def noisesMax_def)
  from normalization_bounds[OF h1 h2] h1 h2 show ?thesis by blast
qed

section \<open>The scheduler\<close>

lemma schedule_closed:
  "schedule cfg s n =
     (let base = noiseToTemp n (b_maxTemp cfg) (a_minTemp cfg) + postponedTempDelta s;
          t1 = (case postponedTempLast s of
                  None \<Rightarrow> base
                | Some l \<Rightarrow> if e_maxUpward cfg > 0 \<and> base > l + e_maxUpward cfg
                            then l + e_maxUpward cfg else base);
          temp = (if t1 > b_maxTemp cfg then b_maxTemp cfg else t1)
      in (temp, s\<lparr>postponedTempDelta := (if t1 > b_maxTemp cfg then 0 else base - t1),
                   postponedTempLast := Some temp\<rparr>))"
  by (simp add: schedule_def Let_def split: option.splits)

lemma schedule_delta_nonneg: "0 \<le> postponedTempDelta (snd (schedule cfg s n))"
  by (simp add: schedule_closed Let_def split: option.splits)

lemma schedule_last: "postponedTempLast (snd (schedule cfg s n)) = Some (fst (schedule cfg s n))"
  by (simp add: schedule_closed Let_def)

lemma schedule_noises: "noises (snd (schedule cfg s n)) = noises s"
  by (simp add: schedule_closed Let_def)

lemma schedule_bounds:
  assumes "a_minTemp cfg \<le> b_maxTemp cfg" and "0 \<le> n" and "n \<le> 1" and "sched_ok cfg s"
  shows "a_minTemp cfg \<le> fst (schedule cfg s n) \<and> fst (schedule cfg s n) \<le> b_maxTemp cfg"
proof -
  have "0 \<le> n * (b_maxTemp cfg - a_minTemp cfg)" using assms(1,2) by simp
  then have base: "a_minTemp cfg \<le> noiseToTemp n (b_maxTemp cfg) (a_minTemp cfg) + postponedTempDelta s"
    using assms(4) by (simp add: noiseToTemp_def sched_ok_def)
  show ?thesis
    using base assms(1,4)
    by (auto simp: schedule_closed Let_def sched_ok_def split: option.splits)
qed

lemma schedule_sched_ok:
  assumes "a_minTemp cfg \<le> b_maxTemp cfg" and "0 \<le> n" and "n \<le> 1" and "sched_ok cfg s"
  shows "sched_ok cfg (snd (schedule cfg s n))"
  using schedule_bounds[OF assms] schedule_delta_nonneg[of cfg s n]
  by (simp add: sched_ok_def schedule_last)

lemma transition_scheduled:
  assumes "\<not> (c_firstTemp cfg \<noteq> 0 \<and> thisZ s \<le> 0.5)"
  shows "transition cfg s line n =
           (case graph_row cfg (thisZ s) (fst (schedule cfg s n)) of
              Inl e \<Rightarrow> Inl e
            | Inr row \<Rightarrow>
                Inr ((snd (schedule cfg s n))
                       \<lparr>layer := replace_s (layer s) line (line @ eol @ injected (fst (schedule cfg s n))),
                        savelayer := True, formerZ := thisZ s, graphStr := graphStr s @ row\<rparr>))"
  using assms
  by (auto simp: transition_def schedule_closed Let_def split: sum.splits)

lemma transition_bypass:
  assumes "c_firstTemp cfg \<noteq> 0" and "thisZ s \<le> 0.5"
  shows "transition cfg s line n =
           (case graph_row cfg (thisZ s) (c_firstTemp cfg) of
              Inl e \<Rightarrow> Inl e
            | Inr row \<Rightarrow> Inr (s\<lparr>formerZ := thisZ s, graphStr := graphStr s @ row\<rparr>))"
  using assms by (auto simp: transition_def Let_def split: sum.splits)

lemma transition_delta_nonneg:
  assumes "transition cfg s line n = Inr s'" and "0 \<le> postponedTempDelta s"
  shows "0 \<le> postponedTempDelta s'"
proof (cases "c_firstTemp cfg \<noteq> 0 \<and> thisZ s \<le> 0.5")
  case True
  then show ?thesis using assms by (auto simp: transition_bypass split: sum.splits)
next
  case False
  then show ?thesis
    using assms schedule_delta_nonneg[of cfg s n]
    by (auto simp: transition_scheduled split: sum.splits)
qed

lemma transition_noises:
  assumes "transition cfg s line n = Inr s'"
  shows "noises s' = noises s"
proof (cases "c_firstTemp cfg \<noteq> 0 \<and> thisZ s \<le> 0.5")
  case True
  then show ?thesis using assms by (auto simp: transition_bypass split: sum.splits)
next
  case False
  then show ?thesis
    using assms by (auto simp: transition_scheduled schedule_noises split: sum.splits)
qed

lemma transition_sched_ok:
  assumes "a_minTemp cfg \<le> b_maxTemp cfg" and "0 \<le> n" and "n \<le> 1" and "sched_ok cfg s"
    and "transition cfg s line n = Inr s'"
  shows "sched_ok cfg s'"
proof (cases "c_firstTemp cfg \<noteq> 0 \<and> thisZ s \<le> 0.5")
  case True
  then show ?thesis using assms(4,5) by (auto simp: transition_bypass sched_ok_def split: sum.splits)
next
  case False
  then show ?thesis
    using assms(5) schedule_sched_ok[OF assms(1-4)]
    by (auto simp: transition_scheduled sched_ok_def split: sum.splits)
qed

lemma unit_noises_lookup:
  assumes "unit_noises ns" and "map_of ns z = Some n"
  shows "0 \<le> n \<and> n \<le> 1"
proof -
  have "(z, n) \<in> set ns" using assms(2) by (rule map_of_SomeD)
  then show ?thesis using assms(1) by (auto simp: unit_noises_def list_all_iff)
qed

lemma rewrite_line_noises:
  assumes "rewrite_line cfg s line = Inr s'"
  shows "noises s' = noises s"
  using assms transition_noises
  by (fastforce simp: rewrite_line_def Let_def split: if_splits option.splits)

lemma rewrite_line_delta_nonneg:
  assumes "rewrite_line cfg s line = Inr s'" and "0 \<le> postponedTempDelta s"
  shows "0 \<le> postponedTempDelta s'"
  using assms transition_delta_nonneg
  by (fastforce simp: rewrite_line_def Let_def split: if_splits option.splits)

lemma rewrite_line_sched_ok:
  assumes "a_minTemp cfg \<le> b_maxTemp cfg" and "unit_noises (noises s)" and "sched_ok cfg s"
    and "rewrite_line cfg s line = Inr s'"
  shows "sched_ok cfg s'"
proof -
  let ?s1 = "s\<lparr>thisZ := getZ line (formerZ s)\<rparr>"
  have ok1: "sched_ok cfg ?s1" using assms(3) by (simp add: sched_ok_def)
  have tr: "\<And>n. map_of (noises s) (getZ line (formerZ s)) = Some n \<Longrightarrow>
              transition cfg ?s1 line n = Inr s' \<Longrightarrow> sched_ok cfg s'"
    using transition_sched_ok[OF assms(1) _ _ ok1] unit_noises_lookup[OF assms(2)] by blast
  show ?thesis
    using assms(3,4) tr
    by (auto simp: rewrite_line_def Let_def sched_ok_def split: if_splits option.splits)
qed

lemma for_each_invariant:
  assumes "for_each body s xs = Inr s'" and "P s"
    and "\<And>t x t'. P t \<Longrightarrow> body t x = Inr t' \<Longrightarrow> P t'"
  shows "P s'"
  using assms(1,2)
proof (induction xs arbitrary: s)
  case Nil
  then show ?case by simp
next
  case (Cons x xs)
  then show ?case using assms(3) by (auto split: sum.splits)
qed

lemma rewrite_layer_invariant:
  assumes "rewrite_layer cfg (s, d) (i, l) = Inr (s', d')"
    and "P s"
    and "\<And>t line t'. P t \<Longrightarrow> rewrite_line cfg t line = Inr t' \<Longrightarrow> P t'"
    and "\<And>t a b c. P t \<Longrightarrow> P (t\<lparr>layer := a, header := b\<rparr>)"
    and "\<And>t a. P t \<Longrightarrow> P (t\<lparr>layer := a\<rparr>)"
    and "\<And>t b. P t \<Longrightarrow> P (t\<lparr>savelayer := b\<rparr>)"
  shows "P s'"
proof -
  let ?s0 = "s\<lparr>layer := l\<rparr>"
  let ?s1 = "if header s then ?s0\<lparr>layer := warmingTempCommands s @ l, header := False\<rparr> else ?s0"
  have p1: "P ?s1" using assms(2,4,5) by auto
  obtain s2 where run: "for_each (rewrite_line cfg) ?s1 (split_s (layer ?s1)) = Inr s2"
    and fin: "s' = (if savelayer s2 then s2\<lparr>savelayer := False\<rparr> else s2)"
    using assms(1) by (auto simp: rewrite_layer_def Let_def split: sum.splits if_splits)
  have "P s2"
    by (rule for_each_invariant[where P = P and body = "rewrite_line cfg", OF run p1]) (rule assms(3))
  then show ?thesis using fin assms(6) by auto
qed

lemma rewrite_layers_invariant:
  assumes "for_each (rewrite_layer cfg) (s, d) ils = Inr (s', d')"
    and "P s"
    and "\<And>t line t'. P t \<Longrightarrow> rewrite_line cfg t line = Inr t' \<Longrightarrow> P t'"
    and "\<And>t a b c. P t \<Longrightarrow> P (t\<lparr>layer := a, header := b\<rparr>)"
    and "\<And>t a. P t \<Longrightarrow> P (t\<lparr>layer := a\<rparr>)"
    and "\<And>t b. P t \<Longrightarrow> P (t\<lparr>savelayer := b\<rparr>)"
  shows "P s'"
proof -
  have "(P \<circ> fst) (s', d')"
  proof (rule for_each_invariant[OF assms(1), of "P \<circ> fst"])
    show "(P \<circ> fst) (s, d)" using assms(2) by simp
  next
    fix t x t'
    assume a: "(P \<circ> fst) t" "rewrite_layer cfg t x = Inr t'"
    obtain ts td where t: "t = (ts, td)" by (cases t)
    obtain xi xl where x: "x = (xi, xl)" by (cases x)
    obtain us ud where u: "t' = (us, ud)" by (cases t')
    have "P us"
      by (rule rewrite_layer_invariant[of cfg ts td xi xl us ud P])
         (use a t x u assms(3-6) in auto)
    then show "(P \<circ> fst) t'" using u by simp
  qed
  then show ?thesis by simp
qed

text \<open>
  C2. On the scheduler path the carried delta is added to the mapped temperature and
  consumed; the result is capped at \<open>last + maxUpward\<close> when a last temperature exists,
  \<open>maxUpward > 0\<close> and the cap is exceeded, the excess becoming the new delta; above
  \<open>maxTemp\<close> it is cut to \<open>maxTemp\<close> and the delta is cleared; the last temperature becomes
  the emitted one. A transition outside the start-temperature bypass emits exactly this
  temperature. The delta is zero when the pass starts and is never negative afterwards.
\<close>

theorem rate_limiting_carried_debt:
  "schedule cfg s n =
     (let base = noiseToTemp n (b_maxTemp cfg) (a_minTemp cfg) + postponedTempDelta s;
          t1 = (case postponedTempLast s of
                  None \<Rightarrow> base
                | Some l \<Rightarrow> if e_maxUpward cfg > 0 \<and> base > l + e_maxUpward cfg
                            then l + e_maxUpward cfg else base);
          temp = (if t1 > b_maxTemp cfg then b_maxTemp cfg else t1)
      in (temp, s\<lparr>postponedTempDelta := (if t1 > b_maxTemp cfg then 0 else base - t1),
                   postponedTempLast := Some temp\<rparr>)) \<and>
   0 \<le> postponedTempDelta (snd (schedule cfg s n)) \<and>
   (\<not> (c_firstTemp cfg \<noteq> 0 \<and> thisZ s \<le> 0.5) \<longrightarrow>
      transition cfg s line n =
        (case graph_row cfg (thisZ s) (fst (schedule cfg s n)) of
           Inl e \<Rightarrow> Inl e
         | Inr row \<Rightarrow>
             Inr ((snd (schedule cfg s n))
                    \<lparr>layer := replace_s (layer s) line (line @ eol @ injected (fst (schedule cfg s n))),
                     savelayer := True, formerZ := thisZ s, graphStr := graphStr s @ row\<rparr>))) \<and>
   postponedTempDelta (start_rewrite cfg s0) = 0 \<and>
   (\<forall>d ils s' d'. 0 \<le> postponedTempDelta s \<and> for_each (rewrite_layer cfg) (s, d) ils = Inr (s', d')
        \<longrightarrow> 0 \<le> postponedTempDelta s')"
proof (intro conjI allI impI)
  show "schedule cfg s n =
     (let base = noiseToTemp n (b_maxTemp cfg) (a_minTemp cfg) + postponedTempDelta s;
          t1 = (case postponedTempLast s of
                  None \<Rightarrow> base
                | Some l \<Rightarrow> if e_maxUpward cfg > 0 \<and> base > l + e_maxUpward cfg
                            then l + e_maxUpward cfg else base);
          temp = (if t1 > b_maxTemp cfg then b_maxTemp cfg else t1)
      in (temp, s\<lparr>postponedTempDelta := (if t1 > b_maxTemp cfg then 0 else base - t1),
                   postponedTempLast := Some temp\<rparr>))"
    by (rule schedule_closed)
next
  show "0 \<le> postponedTempDelta (snd (schedule cfg s n))" by (rule schedule_delta_nonneg)
next
  assume "\<not> (c_firstTemp cfg \<noteq> 0 \<and> thisZ s \<le> 0.5)"
  then show "transition cfg s line n =
        (case graph_row cfg (thisZ s) (fst (schedule cfg s n)) of
           Inl e \<Rightarrow> Inl e
         | Inr row \<Rightarrow>
             Inr ((snd (schedule cfg s n))
                    \<lparr>layer := replace_s (layer s) line (line @ eol @ injected (fst (schedule cfg s n))),
                     savelayer := True, formerZ := thisZ s, graphStr := graphStr s @ row\<rparr>))"
    by (rule transition_scheduled)
next
  show "postponedTempDelta (start_rewrite cfg s0) = 0" by (simp add: start_rewrite_def)
next
  fix d ils s' d'
  assume a: "0 \<le> postponedTempDelta s \<and> for_each (rewrite_layer cfg) (s, d) ils = Inr (s', d')"
  show "0 \<le> postponedTempDelta s'"
    by (rule rewrite_layers_invariant[of cfg s d ils s' d' "\<lambda>t. 0 \<le> postponedTempDelta t"])
       (use a rewrite_line_delta_nonneg in auto)
qed

text \<open>
  C3. With \<open>minTemp \<le> maxTemp\<close>, normalized noise in \<open>[0, 1]\<close> and a sound scheduler
  state, a transition outside the start-temperature bypass puts after the triggering
  line a command whose temperature lies in \<open>[minTemp, maxTemp]\<close>. The scheduler state is
  sound when the pass starts and stays sound over every line and layer, so the bound
  holds at every such transition of the pass.
\<close>

theorem temperature_bounds:
  assumes "a_minTemp cfg \<le> b_maxTemp cfg" and "unit_noises (noises s)" and "sched_ok cfg s"
  shows "(\<forall>n line s'. map_of (noises s) (thisZ s) = Some n \<and>
              \<not> (c_firstTemp cfg \<noteq> 0 \<and> thisZ s \<le> 0.5) \<and> transition cfg s line n = Inr s' \<longrightarrow>
            (\<exists>temp. a_minTemp cfg \<le> temp \<and> temp \<le> b_maxTemp cfg \<and>
               postponedTempLast s' = Some temp \<and>
               layer s' = replace_s (layer s) line (line @ eol @ injected temp))) \<and>
         (\<forall>line s'. rewrite_line cfg s line = Inr s' \<longrightarrow>
            sched_ok cfg s' \<and> unit_noises (noises s')) \<and>
         (\<forall>d ils s' d'. for_each (rewrite_layer cfg) (s, d) ils = Inr (s', d') \<longrightarrow>
            sched_ok cfg s' \<and> unit_noises (noises s')) \<and>
         sched_ok cfg (start_rewrite cfg s0)"
proof (intro conjI allI impI)
  fix n line s'
  assume a: "map_of (noises s) (thisZ s) = Some n \<and>
             \<not> (c_firstTemp cfg \<noteq> 0 \<and> thisZ s \<le> 0.5) \<and> transition cfg s line n = Inr s'"
  have n: "0 \<le> n" "n \<le> 1" using unit_noises_lookup[OF assms(2)] a by blast+
  let ?t = "fst (schedule cfg s n)"
  have b: "a_minTemp cfg \<le> ?t \<and> ?t \<le> b_maxTemp cfg"
    by (rule schedule_bounds[OF assms(1) n assms(3)])
  have "postponedTempLast s' = Some ?t \<and>
        layer s' = replace_s (layer s) line (line @ eol @ injected ?t)"
    using a by (auto simp: transition_scheduled schedule_last split: sum.splits)
  with b show "\<exists>temp. a_minTemp cfg \<le> temp \<and> temp \<le> b_maxTemp cfg \<and>
               postponedTempLast s' = Some temp \<and>
               layer s' = replace_s (layer s) line (line @ eol @ injected temp)"
    by blast
next
  fix line s'
  assume a: "rewrite_line cfg s line = Inr s'"
  show "sched_ok cfg s'" by (rule rewrite_line_sched_ok[OF assms a])
  show "unit_noises (noises s')" using rewrite_line_noises[OF a] assms(2) by simp
next
  fix d ils s' d'
  assume a: "for_each (rewrite_layer cfg) (s, d) ils = Inr (s', d')"
  have "sched_ok cfg s' \<and> unit_noises (noises s')"
  proof (rule rewrite_layers_invariant[OF a, of "\<lambda>t. sched_ok cfg t \<and> unit_noises (noises t)"])
    show "sched_ok cfg s \<and> unit_noises (noises s)" using assms by simp
  next
    fix t line t'
    assume "sched_ok cfg t \<and> unit_noises (noises t)" and "rewrite_line cfg t line = Inr t'"
    then show "sched_ok cfg t' \<and> unit_noises (noises t')"
      using rewrite_line_sched_ok[OF assms(1)] rewrite_line_noises by metis
  qed (simp_all add: sched_ok_def)
  then show "sched_ok cfg s'" and "unit_noises (noises s')" by simp_all
next
  show "sched_ok cfg (start_rewrite cfg s0)" by (simp add: sched_ok_def start_rewrite_def)
qed

text \<open>
  C6, as the code has it. When a start temperature is configured and the height is at
  most 0.5, the transition takes the start temperature for its graph row and nothing
  else: no command is put into the layer, and the scheduler's last temperature and
  carried delta stay as they were.
\<close>

theorem start_temperature_bypass:
  assumes "c_firstTemp cfg \<noteq> 0" and "thisZ s \<le> 0.5" and "transition cfg s line n = Inr s'"
  shows "\<exists>row. graph_row cfg (thisZ s) (c_firstTemp cfg) = Inr row \<and>
           s' = s\<lparr>formerZ := thisZ s, graphStr := graphStr s @ row\<rparr> \<and>
           layer s' = layer s \<and> savelayer s' = savelayer s \<and>
           postponedTempLast s' = postponedTempLast s \<and>
           postponedTempDelta s' = postponedTempDelta s"
  using assms(3) by (auto simp: transition_bypass[OF assms(1,2)] split: sum.splits)

section \<open>The first pass\<close>

lemma fractal_two:
  "fractal perm 2 p x y z f =
     (if 1 + p = 0 then Inl ZeroDivisionError
      else Inr ((noise perm (x * f) (y * f) (z * f) +
                 p * noise perm (x * (f * 2)) (y * (f * 2)) (z * (f * 2))) / (1 + p)))"
  by (simp add: fractal_def numeral_2_eq_2 Let_def)

lemma perlinToNormalizedWood_formula:
  "perlinToNormalizedWood z zOffset grainSize spikinessPower perm =
     (if grainSize = 0 then Inl ZeroDivisionError
      else math_pow
             (frac (3 * ((noise perm 0 0 ((z + zOffset) / (grainSize * 2)) +
                          0.7 * noise perm 0 0 ((z + zOffset) / (grainSize * 2) * 2)) / 1.7)))
             spikinessPower)"
  by (simp add: perlinToNormalizedWood_def fractal_two Let_def frac_def)

lemma absolute_True_id: "absolute s \<Longrightarrow> s\<lparr>absolute := True\<rparr> = s"
  by (cases s) simp

lemma absolute_False_id: "\<not> absolute s \<Longrightarrow> s\<lparr>absolute := False\<rparr> = s"
  by (cases s) simp

text \<open>
  C7. A line scanned in absolute mode (the mode after the line's own G90 or G91 has been
  taken into account), with \<open>z\<close> the height read from it or \<open>formerZ\<close> when it has none:
  above \<open>formerZ + 2\<close> only \<open>formerZ\<close> moves; otherwise, with a difference above 0.1,
  \<open>formerZ\<close> moves and \<open>z\<close> gets the sample; at most 0.1 apart nothing is recorded. The
  sample is three times the fractal noise of two octaves and persistence 0.7 at
  \<open>(z + zOffset) / (grainSize * 2)\<close>, cut to its fractional part and raised to
  \<open>spikinessPower\<close>.
\<close>

theorem height_transition_policy:
  assumes "(if contains line ''G91'' then False
            else if contains line ''G90'' then True else absolute s)"
    and "z = getZ line (formerZ s)"
    and "c = (z + f_zOffset cfg) / (d_grainSize cfg * 2)"
  shows "(z > formerZ s + 2 \<longrightarrow>
            scan_line cfg perm s line = Inr (s\<lparr>absolute := True, thisZ := z, formerZ := z\<rparr>)) \<and>
         (\<not> z > formerZ s + 2 \<and> \<bar>z - formerZ s\<bar> > 0.1 \<longrightarrow>
            scan_line cfg perm s line =
              (case (if d_grainSize cfg = 0 then Inl ZeroDivisionError
                     else math_pow
                            (frac (3 * ((noise perm 0 0 c + 0.7 * noise perm 0 0 (c * 2)) / 1.7)))
                            (h_spikinessPower cfg)) of
                 Inl e \<Rightarrow> Inl e
               | Inr v \<Rightarrow>
                   Inr (s\<lparr>absolute := True, thisZ := z, formerZ := z,
                          noises := AList.update z v (noises s)\<rparr>))) \<and>
         (\<bar>z - formerZ s\<bar> \<le> 0.1 \<longrightarrow>
            scan_line cfg perm s line = Inr (s\<lparr>absolute := True, thisZ := z\<rparr>))"
proof -
  let ?m = "if contains line ''G91'' then (if contains line ''G90'' then s\<lparr>absolute := True\<rparr> else s)\<lparr>absolute := False\<rparr>
            else if contains line ''G90'' then s\<lparr>absolute := True\<rparr> else s"
  have m: "?m = s\<lparr>absolute := True\<rparr>"
    using assms(1) by (auto simp: absolute_True_id split: if_splits)
  show ?thesis
    using assms(1)
    by (auto simp: scan_line_def Let_def assms(2,3) minimumChangeZ_def
          perlinToNormalizedWood_formula absolute_True_id split: if_splits sum.splits)
qed

lemma scan_line_relative:
  assumes "\<not> absolute s" and "\<not> contains line ''G90''"
  shows "scan_line cfg perm s line = Inr s"
  using assms by (simp add: scan_line_def Let_def absolute_False_id)

lemma scan_lines_relative:
  assumes "\<not> absolute s" and "\<forall>l \<in> set ls. \<not> contains l ''G90''"
  shows "for_each (scan_line cfg perm) s ls = Inr s"
  using assms by (induction ls) (simp_all add: scan_line_relative)

text \<open>
  C9, as the code has it. The first pass starts with \<open>absolute\<close> false and with
  \<open>formerZ\<close> and \<open>thisZ\<close> at -1: no height is read, and nothing changes, until a line
  holds G90.
\<close>

theorem initial_positioning_mode:
  assumes "init_locals cfg perm = Inr s"
  shows "\<not> absolute s \<and> formerZ s = - 1 \<and> thisZ s = - 1 \<and>
         (\<forall>ls. (\<forall>l \<in> set ls. \<not> contains l ''G90'') \<longrightarrow> for_each (scan_line cfg perm) s ls = Inr s)"
proof -
  have a: "\<not> absolute s \<and> formerZ s = - 1 \<and> thisZ s = - 1"
    using assms by (auto simp: init_locals_def split: sum.splits)
  then show ?thesis using scan_lines_relative by blast
qed

section \<open>Facts about the string builtins\<close>

lemma contains_set: "contains s sub \<Longrightarrow> set sub \<subseteq> set s"
proof (induction s)
  case Nil
  then show ?case by simp
next
  case (Cons c cs)
  show ?case
  proof (cases "prefix sub (c # cs)")
    case True
    then show ?thesis by (rule set_mono_prefix)
  next
    case False
    then show ?thesis using Cons by auto
  qed
qed

lemma split_s_nonempty: "split_s s \<noteq> []"
  by (induction s) (auto split: list.splits)

lemma split_s_no_newline: "l \<in> set (split_s s) \<Longrightarrow> CHR 0x0A \<notin> set l"
proof (induction s arbitrary: l)
  case Nil
  then show ?case by simp
next
  case (Cons c cs)
  then show ?case
    by (cases "split_s cs") (auto split: if_splits)
qed

lemma no_match_across:
  assumes "g \<in> set old" and "g \<notin> set p" and "i < length p" and "last p \<notin> set old"
  shows "\<not> prefix old (drop i (p @ r))"
proof
  assume a: "prefix old (drop i (p @ r))"
  let ?q = "drop i p"
  have q: "?q \<noteq> []" "last ?q = last p" "set ?q \<subseteq> set p"
    using assms(3) by (auto simp: last_drop dest: in_set_dropD)
  have "prefix old (?q @ r)" using a assms(3) by simp
  then consider "prefix old ?q" | us where "old = ?q @ us"
    by (auto simp: prefix_append)
  then show False
  proof cases
    case 1
    then have "set old \<subseteq> set ?q" by (rule set_mono_prefix)
    then show False using assms(1,2) q(3) by auto
  next
    case 2
    have "last ?q \<in> set ?q" using q(1) by (rule last_in_set)
    then have "last ?q \<in> set old" using 2 by simp
    then show False using q(2) assms(4) by simp
  qed
qed

lemma replace_from_keeps_prefix:
  assumes "\<forall>i < length p. \<not> prefix old (drop i (p @ r))"
  shows "replace_from 0 old new (p @ r) = p @ replace_from 0 old new r"
  using assms
proof (induction p)
  case Nil
  then show ?case by simp
next
  case (Cons c p)
  have "\<not> prefix old ((c # p) @ r)" using Cons.prems by (metis drop0 length_greater_0_conv list.distinct(1))
  moreover have "\<forall>i < length p. \<not> prefix old (drop i (p @ r))"
  proof (intro allI impI)
    fix i assume "i < length p"
    then have "Suc i < length (c # p)" by simp
    then have "\<not> prefix old (drop (Suc i) ((c # p) @ r))" using Cons.prems by blast
    then show "\<not> prefix old (drop i (p @ r))" by simp
  qed
  ultimately show ?case using Cons.IH by simp
qed

lemma replace_s_keeps_prefix:
  assumes "prefix p s" and "g \<in> set old" and "g \<notin> set p" and "p \<noteq> []" and "last p \<notin> set old"
  shows "prefix p (replace_s s old new)"
proof -
  obtain r where s: "s = p @ r" using assms(1) by (auto simp: prefix_def)
  have old: "old \<noteq> []" using assms(2) by auto
  have "\<forall>i < length p. \<not> prefix old (drop i (p @ r))"
    using no_match_across[OF assms(2,3) _ assms(5)] by blast
  then have "replace_from 0 old new (p @ r) = p @ replace_from 0 old new r"
    by (rule replace_from_keeps_prefix)
  then show ?thesis using s old by (simp add: replace_s_def)
qed

lemma replace_from_length:
  "old \<noteq> [] \<Longrightarrow> length s \<le> length (replace_from k old (old @ x) s) + k"
proof (induction k old "old @ x" s rule: replace_from.induct)
  case (1 k old)
  then show ?case by simp
next
  case (2 k old c cs)
  then show ?case by simp
next
  case (3 old c cs)
  show ?case
  proof (cases "prefix old (c # cs)")
    case True
    have l: "1 \<le> length old" using 3(3) by (cases old) auto
    have ih: "length cs \<le> length (replace_from (length old - 1) old (old @ x) cs) + (length old - 1)"
      using 3(1)[OF True] 3(3) by simp
    have "length (replace_from 0 old (old @ x) (c # cs)) =
          length old + length x + length (replace_from (length old - 1) old (old @ x) cs)"
      using True by simp
    moreover have "length (c # cs) = length cs + 1" by simp
    ultimately show ?thesis using l ih by linarith
  next
    case False
    then show ?thesis using 3(2)[OF False] 3(3) by simp
  qed
qed

lemma replace_s_length: "length s \<le> length (replace_s s old (old @ x))"
proof (cases "old = []")
  case True
  show ?thesis by (simp add: replace_s_def True length_concat) (induction s, auto)
next
  case False
  then show ?thesis using replace_from_length[of old s 0 x] by (simp add: replace_s_def)
qed

section \<open>Evaluation on concrete inputs\<close>

lemma str_nat_small: "n < 10 \<Longrightarrow> str_nat n = [digit_char n]"
  by (simp add: str_nat.simps)

lemma str_nat_big: "10 \<le> n \<Longrightarrow> str_nat n = str_nat (n div 10) @ [digit_char (n mod 10)]"
  by (simp add: str_nat.simps)

lemma lower_c_chain:
  "lower_c c =
     (if c = CHR ''A'' then CHR ''a'' else if c = CHR ''B'' then CHR ''b''
      else if c = CHR ''C'' then CHR ''c'' else if c = CHR ''D'' then CHR ''d''
      else if c = CHR ''E'' then CHR ''e'' else if c = CHR ''F'' then CHR ''f''
      else if c = CHR ''G'' then CHR ''g'' else if c = CHR ''H'' then CHR ''h''
      else if c = CHR ''I'' then CHR ''i'' else if c = CHR ''J'' then CHR ''j''
      else if c = CHR ''K'' then CHR ''k'' else if c = CHR ''L'' then CHR ''l''
      else if c = CHR ''M'' then CHR ''m'' else if c = CHR ''N'' then CHR ''n''
      else if c = CHR ''O'' then CHR ''o'' else if c = CHR ''P'' then CHR ''p''
      else if c = CHR ''Q'' then CHR ''q'' else if c = CHR ''R'' then CHR ''r''
      else if c = CHR ''S'' then CHR ''s'' else if c = CHR ''T'' then CHR ''t''
      else if c = CHR ''U'' then CHR ''u'' else if c = CHR ''V'' then CHR ''v''
      else if c = CHR ''W'' then CHR ''w'' else if c = CHR ''X'' then CHR ''x''
      else if c = CHR ''Y'' then CHR ''y'' else if c = CHR ''Z'' then CHR ''z'' else c)"
  by (simp add: lower_c_def)

lemmas text_eval =
  eol_def find_s_def lower_s_def lower_c_chain replace_s_def py_int_def is_digit_def digit_val_def
  digits_val_def re_number_def float_s_def digit_char_def str_nat_small str_nat_big str_int_def
  fmt_i_def fmt_3i_def round_half_even_def fmt_03f_def str_float_def getValue_def getZ_def

text \<open>The same body, with \<open>line.lower()\<close> computed once.\<close>

lemma rewrite_line_eval:
  "rewrite_line cfg s line =
     (let ll = lower_s line
      in if contains ll ''; set extruder '' then
           Inr (s\<lparr>layer := replace_s (layer s) line (line @ eol @ warmingTempCommands s),
                  warmingTempCommands := [], savelayer := True\<rparr>)
         else if skiplines s > 0 then Inr (s\<lparr>skiplines := skiplines s - 1\<rparr>)
         else if contains ll '';woodified'' then Inr (s\<lparr>skiplines := 4\<rparr>)
         else if \<not> contains ll '';woodgraph'' then
           (if thisZ s = lastPatchZ s then Inr s
            else if \<not> contains ll ''m104'' then
              (let s = s\<lparr>thisZ := getZ line (formerZ s)\<rparr>
               in (case map_of (noises s) (thisZ s) of
                     Some n \<Rightarrow> if thisZ s \<noteq> formerZ s then transition cfg s line n else Inr s
                   | None \<Rightarrow> Inr s))
            else Inr s)
         else Inr s)"
  by (simp add: rewrite_line_def Let_def)

lemma replicate_numeral_eval: "replicate (numeral k) x = x # replicate (pred_numeral k) x"
  by (simp add: numeral_eq_Suc)

lemma reversed_permutation_at:
  assumes "0 \<le> i" and "i < 256"
  shows "perm_at (Perlin reversed_permutation) i = 255 - i"
proof -
  have "nat i < 256" using assms by linarith
  then show ?thesis
    using assms by (simp add: perm_at_def Perlin_def reversed_permutation_def nth_append)
qed

lemmas wood_eval =
  perlinToNormalizedWood_def fractal_def numeral_2_eq_2 noise_def py_int_def tiledim_def
  reversed_permutation_at grad_def math_pow_def Let_def fade_def lerp_def

lemmas scan_eval =
  first_pass_def init_locals_def scan_layer_def scan_line_def minimumChangeZ_def text_eval Let_def

lemmas rewrite_eval =
  second_pass_def start_rewrite_def rewrite_layer_def rewrite_line_eval transition_scheduled
  transition_bypass schedule_def graph_row_def graph_head_def warming_def injected_def
  noiseToTemp_def text_eval Let_def List.enumerate_eq_zip replicate_numeral_eval

lemma wood_0: "perlinToNormalizedWood 0 0 3 1 (Perlin reversed_permutation) = Inr 0"
  by (simp add: wood_eval)

lemma wood_03:
  "perlinToNormalizedWood (3 / 10) 0 3 1 (Perlin reversed_permutation) = Inr (214715411 / 272000000)"
  by (simp add: wood_eval)

lemma wood_06:
  "perlinToNormalizedWood (3 / 5) 0 3 1 (Perlin reversed_permutation) = Inr (629309 / 1062500)"
  by (simp add: wood_eval)

lemma short_first_pass:
  "first_pass sample_settings (Perlin reversed_permutation) short_stream =
     Inr \<lparr>noises = [(0, 0), (3 / 10, 214715411 / 272000000)], formerZ = 3 / 10, thisZ = 3 / 10,
          absolute = True, lastPatchZ = 3 / 10, warmingTempCommands = [], graphStr = [],
          header = False, savelayer = False, postponedTempDelta = 0, postponedTempLast = None,
          skiplines = 0, layer = []\<rparr>"
  by (simp add: scan_eval sample_settings_def short_stream_def wood_0 wood_03)

lemma short_normalize:
  "normalize [(0, 0), (3 / 10, 214715411 / 272000000)] = Inr [(0, 0), (3 / 10, 1)]"
  by (simp add: normalize_def noisesMax_def noisesMin_def)

lemma short_execute:
  "execute sample_settings reversed_permutation short_stream = (None, short_stream_once)"
  by (simp add: execute_def short_first_pass short_normalize)
     (simp add: rewrite_eval sample_settings_def short_stream_def short_stream_once_def)

lemma once_first_pass:
  "first_pass sample_settings (Perlin reversed_permutation) short_stream_once =
     Inr \<lparr>noises = [(0, 0), (3 / 10, 214715411 / 272000000)], formerZ = 3 / 10, thisZ = 3 / 10,
          absolute = True, lastPatchZ = 3 / 10, warmingTempCommands = [], graphStr = [],
          header = False, savelayer = False, postponedTempDelta = 0, postponedTempLast = None,
          skiplines = 0, layer = []\<rparr>"
  by (simp add: scan_eval sample_settings_def short_stream_once_def wood_0 wood_03)

lemma once_execute:
  "execute sample_settings reversed_permutation short_stream_once = (None, short_stream_twice)"
  by (simp add: execute_def once_first_pass short_normalize)
     (simp add: rewrite_eval sample_settings_def short_stream_once_def short_stream_twice_def)

lemma tagged_once: "tagged_lines short_stream_once = [''M104 S230 ; Wood Grain'']"
  by (simp add: tagged_lines_def short_stream_once_def)

lemma tagged_twice:
  "tagged_lines short_stream_twice = [''M104 S230 ; Wood Grain'', ''M104 S230 ; Wood Grain'']"
  by (simp add: tagged_lines_def short_stream_twice_def)

text \<open>
  C1. The transform run on \<open>short_stream\<close> injects one tagged command; run again on its
  own output it keeps that command, injects it a second time after the same line, and
  prepends the startup block and appends the graph a second time.
\<close>

theorem rerun_accumulates:
  "execute sample_settings reversed_permutation short_stream = (None, short_stream_once) \<and>
   execute sample_settings reversed_permutation short_stream_once = (None, short_stream_twice) \<and>
   length (tagged_lines short_stream_once) = 1 \<and>
   length (tagged_lines short_stream_twice) = 2"
  by (simp add: short_execute once_execute tagged_once tagged_twice)

end
